theory Spec2Isabelle
  imports Main "HOL-Library.AList" "HOL-Library.Multiset"
begin

section \<open>The Cython PIE application frame\<close>

text \<open>
  A shallow embedding of \<^verbatim>\<open>analytical_engine/frame/cython_pie_app_frame.cc\<close>: the
  library a grape instance loads to obtain \<^verbatim>\<open>CreateWorker\<close>, \<^verbatim>\<open>Query\<close> and
  \<^verbatim>\<open>DeleteWorker\<close>. The frame is glue code, so its behaviour is the sequence of calls
  it makes on its collaborators and what these calls leave behind in the process: the
  embedded Python runtime, the heap of worker handlers, and the worker objects.
  Every function of the frame is a transformer of an explicit process state, which also
  records the collaborator calls in the order the frame makes them.
\<close>

subsection \<open>Data model\<close>

type_synonym addr = nat
  \<comment> \<open>a \<^verbatim>\<open>void*\<close>; \<open>0\<close> is the null pointer\<close>

datatype lifecycle = Uninitialized | Ready | Evaluating | Poisoned | Finalized

datatype error =
    ConfigurationError string
  | CommunicationError string
  | ProgramError string
  | ArgumentError string

type_synonym ('f, 'c) callback = "'f \<Rightarrow> 'c \<Rightarrow> 'c"
  \<comment> \<open>\<^verbatim>\<open>void (Fragment&, Context<VD, MD>&)\<close>: the context is updated in place\<close>

text \<open>
  The functions \<^verbatim>\<open>Init\<close>, \<^verbatim>\<open>PEval\<close> and \<^verbatim>\<open>IncEval\<close> the frame finds in the header
  named by the macro \<^verbatim>\<open>_APP_HEADER\<close> (generated by Cython from the user's program).
  They are a parameter of the frame.
\<close>

record ('f, 'c) app_header =
  Init :: "('f, 'c) callback"
  PEval :: "('f, 'c) callback"
  IncEval :: "('f, 'c) callback"

text \<open>
  Modelled from the spec: \<^verbatim>\<open>gs::CythonPIEProgram\<close> (apps/python\_pie/cython\_pie\_program.h)
  is not among the sources. The spec describes the Program as three callback slots, one per
  phase, each bound or unbound; a default-constructed Program has no slot bound and each
  setter binds its own slot.
\<close>

record ('f, 'c) CythonPIEProgram =
  init_func :: "('f, 'c) callback option"
  peval_func :: "('f, 'c) callback option"
  inceval_func :: "('f, 'c) callback option"

definition new_program :: "('f, 'c) CythonPIEProgram" where
  "new_program = \<lparr>init_func = None, peval_func = None, inceval_func = None\<rparr>"

definition SetInitFunction ::
  "('f, 'c) callback \<Rightarrow> ('f, 'c) CythonPIEProgram \<Rightarrow> ('f, 'c) CythonPIEProgram" where
  "SetInitFunction f p = p\<lparr>init_func := Some f\<rparr>"

definition SetPEvalFunction ::
  "('f, 'c) callback \<Rightarrow> ('f, 'c) CythonPIEProgram \<Rightarrow> ('f, 'c) CythonPIEProgram" where
  "SetPEvalFunction f p = p\<lparr>peval_func := Some f\<rparr>"

definition SetIncEvalFunction ::
  "('f, 'c) callback \<Rightarrow> ('f, 'c) CythonPIEProgram \<Rightarrow> ('f, 'c) CythonPIEProgram" where
  "SetIncEvalFunction f p = p\<lparr>inceval_func := Some f\<rparr>"

definition all_bound :: "('f, 'c) CythonPIEProgram \<Rightarrow> bool" where
  "all_bound p \<longleftrightarrow> init_func p \<noteq> None \<and> peval_func p \<noteq> None \<and> inceval_func p \<noteq> None"

text \<open>
  Modelled from the spec: \<^verbatim>\<open>gs::PythonPIEApp\<close> and its worker type
  (apps/python\_pie/python\_pie\_app.h and the worker it installs) are not among the sources.
  The App composes a Program; the Worker owns one App, references one Fragment, holds the
  Context of the last query (none before the first), its communication-group and
  parallelism configuration, and its lifecycle state.
\<close>

record ('f, 'c) PythonPIEApp =
  program :: "('f, 'c) CythonPIEProgram"

record ('f, 'c, 'cs, 'ps) worker_t =
  app :: "('f, 'c) PythonPIEApp"
  fragment :: 'f
  wcontext :: "'c option"
  comm_spec :: "'cs option"
  parallel_spec :: "'ps option"
  wstate :: lifecycle

text \<open>
  \<^verbatim>\<open>struct worker_handler { std::shared_ptr<worker_t> worker; }\<close>: the pointer is null
  (\<open>None\<close>) in a fresh handler and after \<^verbatim>\<open>reset()\<close>. The frame never shares a worker
  between two handlers, so the worker object is stored in the handler that points to it.
\<close>

record ('f, 'c, 'cs, 'ps) worker_handler_t =
  worker :: "('f, 'c, 'cs, 'ps) worker_t option"

text \<open>
  Modelled from the spec: the embedded Python runtime (the Python C API, not part of the
  sources) is process-global state with explicit initialize and teardown and at most one
  active interpreter. \<open>initialized\<close> is what \<^verbatim>\<open>Py_IsInitialized\<close> reads; \<open>epoch\<close>
  counts the interpreters started so far and so names the active one.
\<close>

record py_runtime =
  initialized :: bool
  epoch :: nat

text \<open>The collaborator calls the frame makes, as recorded in the process state.\<close>

datatype call =
    Call_PyImport_AppendInittab string
  | Call_printf string
  | Call_Py_Finalize
  | Call_Py_Initialize
  | Call_PyImport_ImportModule string
  | Call_new_handler addr
  | Call_App_CreateWorker addr
  | Call_worker_Init addr
  | Call_worker_Finalize addr
  | Call_worker_reset addr
  | Call_delete_handler addr
  | Call_AppInvoker_Query addr
  | Call_GetContext addr
  | Call_CtxWrapperBuilder_build string

record ('f, 'c, 'cs, 'ps) process =
  py :: py_runtime
  handlers :: "(addr \<times> ('f, 'c, 'cs, 'ps) worker_handler_t) list"
  trace :: "call list"

definition log :: "call \<Rightarrow> ('f, 'c, 'cs, 'ps) process \<Rightarrow> ('f, 'c, 'cs, 'ps) process" where
  "log c s = s\<lparr>trace := trace s @ [c]\<rparr>"

definition initial_process :: "('f, 'c, 'cs, 'ps) process" where
  "initial_process =
     \<lparr>py = \<lparr>initialized = False, epoch = 0\<rparr>,
      handlers = [], trace = []\<rparr>"

subsection \<open>The Python runtime\<close>

definition Py_IsInitialized :: "py_runtime \<Rightarrow> bool" where
  "Py_IsInitialized rt = initialized rt"

text \<open>
  Each of \<^verbatim>\<open>Py_Finalize\<close> and \<^verbatim>\<open>Py_Initialize\<close> does nothing when the runtime is
  already in the state it leads to.
\<close>

definition Py_Finalize :: "py_runtime \<Rightarrow> py_runtime" where
  "Py_Finalize rt = (if initialized rt then rt\<lparr>initialized := False\<rparr> else rt)"

definition Py_Initialize :: "py_runtime \<Rightarrow> py_runtime" where
  "Py_Initialize rt =
     (if initialized rt then rt else rt\<lparr>initialized := True, epoch := Suc (epoch rt)\<rparr>)"

subsection \<open>namespace python\_grape\<close>

definition python_grape_Init :: "('f, 'c) app_header \<Rightarrow> ('f, 'c) callback" where
  "python_grape_Init hdr frag ctx = Init hdr frag ctx"

definition python_grape_PEval :: "('f, 'c) app_header \<Rightarrow> ('f, 'c) callback" where
  "python_grape_PEval hdr frag ctx = PEval hdr frag ctx"

definition python_grape_IncEval :: "('f, 'c) app_header \<Rightarrow> ('f, 'c) callback" where
  "python_grape_IncEval hdr frag ctx = IncEval hdr frag ctx"

definition cannot_initialize :: string where
  "cannot_initialize = ''Cannot initialize Python module...'' @ [CHR 0x5C, CHR ''n'']"

text \<open>
  \<^verbatim>\<open>AppInit\<close>, lines 99 to 118. \<open>name\<close> is the macro \<^verbatim>\<open>_MODULE_NAME\<close>. Whether
  \<^verbatim>\<open>PyImport_AppendInittab\<close> succeeds is decided by the runtime: its return value
  \<open>err\<close> is an input of the model. What the call and \<^verbatim>\<open>PyImport_ImportModule\<close> do
  to the module tables is not observed by the frame; both are recorded as calls only.
\<close>

definition AppInit ::
  "string \<Rightarrow> int \<Rightarrow> ('f, 'c, 'cs, 'ps) process \<Rightarrow> ('f, 'c, 'cs, 'ps) process" where
  "AppInit name err s =
     (let s1 = log (Call_PyImport_AppendInittab name) s
      in if err < 0 then log (Call_printf cannot_initialize) s1
         else
           let s2 = (if Py_IsInitialized (py s1)
                     then log Call_Py_Finalize (s1\<lparr>py := Py_Finalize (py s1)\<rparr>)
                     else s1);
               s3 = log Call_Py_Initialize (s2\<lparr>py := Py_Initialize (py s2)\<rparr>)
           in log (Call_PyImport_ImportModule name) s3)"

text \<open>\<^verbatim>\<open>CreateApp\<close>, lines 120 to 127.\<close>

definition CreateApp ::
  "('f, 'c) app_header \<Rightarrow> string \<Rightarrow> int \<Rightarrow> ('f, 'c, 'cs, 'ps) process \<Rightarrow>
   ('f, 'c) PythonPIEApp \<times> ('f, 'c, 'cs, 'ps) process" where
  "CreateApp hdr name err s =
     (let s1 = AppInit name err s;
          program0 = new_program;
          program1 = SetInitFunction (python_grape_Init hdr) program0;
          program2 = SetPEvalFunction (python_grape_PEval hdr) program1;
          program3 = SetIncEvalFunction (python_grape_IncEval hdr) program2
      in (\<lparr>program = program3\<rparr>, s1))"

subsection \<open>Workers and handlers\<close>

text \<open>
  Modelled from the spec: the worker's lifecycle operations (the worker class is not among
  the sources). A worker is constructed \<open>Uninitialized\<close>. \<^verbatim>\<open>Init\<close> establishes the
  communication group and configures the parallelism, with success or an error as its
  outcome. Whether the group can be established is decided by the transport and the
  peers: it is the input \<open>failure\<close> of the model (\<open>None\<close> when the group is
  established, the diagnostic message when it is not). On success the worker moves from
  \<open>Uninitialized\<close> to \<open>Ready\<close>; a communication failure is fatal to the worker and
  leaves it in the poisoned state, where only \<^verbatim>\<open>Finalize\<close> is permitted; a second
  \<^verbatim>\<open>Init\<close> is a ConfigurationError and leaves the worker as it was. \<^verbatim>\<open>Finalize\<close>
  releases the group and moves \<open>Ready\<close> or the poisoned state to \<open>Finalized\<close>; it
  returns nothing, and elsewhere leaves the worker as it was.
\<close>

definition App_CreateWorker ::
  "('f, 'c) PythonPIEApp \<Rightarrow> 'f \<Rightarrow> ('f, 'c, 'cs, 'ps) worker_t" where
  "App_CreateWorker a frag =
     \<lparr>app = a, fragment = frag, wcontext = None, comm_spec = None, parallel_spec = None,
      wstate = Uninitialized\<rparr>"

definition double_init :: string where
  "double_init = ''worker is already initialized''"

definition worker_Init ::
  "'cs \<Rightarrow> 'ps \<Rightarrow> string option \<Rightarrow> ('f, 'c, 'cs, 'ps) worker_t \<Rightarrow>
   (error + unit) \<times> ('f, 'c, 'cs, 'ps) worker_t" where
  "worker_Init cs ps failure w =
     (if wstate w \<noteq> Uninitialized then (Inl (ConfigurationError double_init), w)
      else
        (case failure of
           None \<Rightarrow>
             (Inr (), w\<lparr>comm_spec := Some cs, parallel_spec := Some ps, wstate := Ready\<rparr>)
         | Some msg \<Rightarrow> (Inl (CommunicationError msg), w\<lparr>wstate := Poisoned\<rparr>)))"

definition worker_Finalize :: "('f, 'c, 'cs, 'ps) worker_t \<Rightarrow> ('f, 'c, 'cs, 'ps) worker_t" where
  "worker_Finalize w =
     (if wstate w = Ready \<or> wstate w = Poisoned
      then w\<lparr>comm_spec := None, parallel_spec := None, wstate := Finalized\<rparr>
      else w)"

text \<open>
  \<^verbatim>\<open>new worker_handler_t\<close> returns an address that is not null and not in use.
\<close>

definition new_addr :: "(addr \<times> 'a) list \<Rightarrow> addr" where
  "new_addr hs = Suc (fold max (map fst hs) 0)"

definition set_handler ::
  "addr \<Rightarrow> ('f, 'c, 'cs, 'ps) worker_handler_t \<Rightarrow> ('f, 'c, 'cs, 'ps) process \<Rightarrow>
   ('f, 'c, 'cs, 'ps) process" where
  "set_handler h x s = s\<lparr>handlers := AList.update h x (handlers s)\<rparr>"

definition handler_at ::
  "('f, 'c, 'cs, 'ps) process \<Rightarrow> addr \<Rightarrow> ('f, 'c, 'cs, 'ps) worker_handler_t option" where
  "handler_at s h = map_of (handlers s) h"

text \<open>
  The worker a handle points to: \<open>None\<close> when the handle is not a live handler or its
  worker pointer is null.
\<close>

definition worker_at ::
  "('f, 'c, 'cs, 'ps) process \<Rightarrow> addr \<Rightarrow> ('f, 'c, 'cs, 'ps) worker_t option" where
  "worker_at s h = (case handler_at s h of None \<Rightarrow> None | Some x \<Rightarrow> worker x)"

subsection \<open>The exported functions\<close>

text \<open>
  \<^verbatim>\<open>CreateWorker\<close>, lines 136 to 145. \<open>init_failure\<close> is what the call of the
  worker's \<^verbatim>\<open>Init\<close> at line 143 meets when it establishes the communication group.
  The frame does not look at the outcome of \<^verbatim>\<open>Init\<close>: it keeps the worker as
  \<^verbatim>\<open>Init\<close> left it and returns the handle.
\<close>

definition CreateWorker ::
  "('f, 'c) app_header \<Rightarrow> string \<Rightarrow> int \<Rightarrow> 'f \<Rightarrow> 'cs \<Rightarrow> 'ps \<Rightarrow> string option \<Rightarrow>
   ('f, 'c, 'cs, 'ps) process \<Rightarrow> addr \<times> ('f, 'c, 'cs, 'ps) process" where
  "CreateWorker hdr name err frag cs spec init_failure s =
     (let (a, s1) = CreateApp hdr name err s;
          h = new_addr (handlers s1);
          s2 = log (Call_new_handler h) (s1\<lparr>handlers := (h, \<lparr>worker = None\<rparr>) # handlers s1\<rparr>);
          w = App_CreateWorker a frag;
          s3 = log (Call_App_CreateWorker h) (set_handler h \<lparr>worker = Some w\<rparr> s2);
          (outcome, w') = worker_Init cs spec init_failure w;
          s4 = log (Call_worker_Init h) (set_handler h \<lparr>worker = Some w'\<rparr> s3)
      in (h, s4))"

text \<open>
  \<^verbatim>\<open>DeleteWorker\<close>, lines 147 to 153. A pointer that is not a live handler, or a handler
  whose worker pointer is null, is undefined behaviour in the source: the model returns
  \<open>None\<close>.
\<close>

definition DeleteWorker ::
  "addr \<Rightarrow> ('f, 'c, 'cs, 'ps) process \<Rightarrow> ('f, 'c, 'cs, 'ps) process option" where
  "DeleteWorker h s =
     (case worker_at s h of
        None \<Rightarrow> None
      | Some w \<Rightarrow>
          let s1 = log (Call_worker_Finalize h)
                     (set_handler h \<lparr>worker = Some (worker_Finalize w)\<rparr> s);
              s2 = log (Call_worker_reset h) (set_handler h \<lparr>worker = None\<rparr> s1);
              s3 = log (Call_delete_handler h) (s2\<lparr>handlers := AList.delete h (handlers s2)\<rparr>)
          in Some s3)"

text \<open>
  The two out-parameters of \<^verbatim>\<open>Query\<close>: \<^verbatim>\<open>ctx_wrapper\<close>, a shared pointer (\<open>None\<close> is
  null), and \<^verbatim>\<open>wrapper_error\<close>, a \<^verbatim>\<open>bl::result<nullptr_t>\<close>. The caller passes them
  in with whatever they hold and reads them back.
\<close>

record 'cw query_out =
  ctx_wrapper :: "'cw option"
  wrapper_error :: "error + unit"

text \<open>
  \<^verbatim>\<open>Query\<close>, lines 155 to 172. \<^verbatim>\<open>gs::AppInvoker<_APP_TYPE>::Query\<close> and
  \<^verbatim>\<open>gs::CtxWrapperBuilder<context_t>::build\<close> are the parameters \<open>invoke\<close> and
  \<open>build\<close>: the first returns a result and the worker as the evaluation left it, the
  second a shared pointer to the wrapper it built.
\<close>

definition Query ::
  "(('f, 'c, 'cs, 'ps) worker_t \<Rightarrow> 'a \<Rightarrow> (error + unit) \<times> ('f, 'c, 'cs, 'ps) worker_t) \<Rightarrow>
   (string \<Rightarrow> 'fw \<Rightarrow> 'c option \<Rightarrow> 'cw option) \<Rightarrow>
   addr \<Rightarrow> 'a \<Rightarrow> string \<Rightarrow> 'fw \<Rightarrow> 'cw query_out \<Rightarrow> ('f, 'c, 'cs, 'ps) process \<Rightarrow>
   ('cw query_out \<times> ('f, 'c, 'cs, 'ps) process) option" where
  "Query invoke build h query_args context_key frag_wrapper out s =
     (case worker_at s h of
        None \<Rightarrow> None
      | Some w \<Rightarrow>
          let (result, w') = invoke w query_args;
              s1 = log (Call_AppInvoker_Query h) (set_handler h \<lparr>worker = Some w'\<rparr> s)
          in (case result of
                Inl e \<Rightarrow> Some (out\<lparr>wrapper_error := Inl e\<rparr>, s1)
              | Inr u \<Rightarrow>
                  if context_key \<noteq> [] then
                    let c = wcontext w';
                        s2 = log (Call_GetContext h) s1;
                        s3 = log (Call_CtxWrapperBuilder_build context_key) s2
                    in Some (out\<lparr>ctx_wrapper := build context_key frag_wrapper c\<rparr>, s3)
                  else Some (out, s1)))"

subsection \<open>The application invoker\<close>

text \<open>
  Modelled from the spec: \<^verbatim>\<open>gs::AppInvoker\<close> (core/app/app\_invoker.h) and the worker's
  own \<^verbatim>\<open>Query\<close> are not among the sources. The spec gives their contract: a query is
  valid only from \<open>Ready\<close> (a query on a worker that was never initialized leaves it
  unusable except for \<^verbatim>\<open>Finalize\<close>); a Program with an unbound slot is a
  ConfigurationError before any evaluation work begins; otherwise the PIE cycle runs, and
  a failure of communication, of a callback or of argument validation comes back as a
  structured error with the Context in whatever state the failed phase left it. A
  communication failure is fatal to the worker, the other two leave it \<open>Ready\<close>.
  The PIE cycle itself, which involves the peer partitions, is the parameter \<open>pie\<close>.
\<close>

datatype pie_failure =
    CommunicationFailure string
  | ProgramFailure string
  | ArgumentFailure string

fun error_of :: "pie_failure \<Rightarrow> error" where
  "error_of (CommunicationFailure msg) = CommunicationError msg"
| "error_of (ProgramFailure msg) = ProgramError msg"
| "error_of (ArgumentFailure msg) = ArgumentError msg"

fun fatal :: "pie_failure \<Rightarrow> bool" where
  "fatal (CommunicationFailure msg) = True"
| "fatal (ProgramFailure msg) = False"
| "fatal (ArgumentFailure msg) = False"

definition not_ready :: string where
  "not_ready = ''worker is not ready''"

definition unbound_slot :: string where
  "unbound_slot = ''callback slot is not bound''"

type_synonym ('f, 'c, 'a) pie_cycle =
  "('f, 'c) CythonPIEProgram \<Rightarrow> 'f \<Rightarrow> 'c option \<Rightarrow> 'a \<Rightarrow> (pie_failure \<times> 'c option) + 'c"

definition AppInvoker_Query ::
  "('f, 'c, 'a) pie_cycle \<Rightarrow> ('f, 'c, 'cs, 'ps) worker_t \<Rightarrow> 'a \<Rightarrow>
   (error + unit) \<times> ('f, 'c, 'cs, 'ps) worker_t" where
  "AppInvoker_Query pie w query_args =
     (if wstate w \<noteq> Ready then
        (Inl (ConfigurationError not_ready),
         if wstate w = Uninitialized then w\<lparr>wstate := Poisoned\<rparr> else w)
      else if \<not> all_bound (program (app w)) then
        (Inl (ConfigurationError unbound_slot), w)
      else
        (case pie (program (app w)) (fragment w) (wcontext w) query_args of
           Inl (f, c) \<Rightarrow>
             (Inl (error_of f), w\<lparr>wcontext := c, wstate := (if fatal f then Poisoned else Ready)\<rparr>)
         | Inr c \<Rightarrow> (Inr (), w\<lparr>wcontext := Some c\<rparr>)))"

subsection \<open>The PIE cycle across a communication group\<close>

text \<open>
  Modelled from the spec: the evaluation that \<^verbatim>\<open>Query\<close> drives (the worker's superstep
  loop and the message transport) is not among the sources. The spec's section 4.2 gives
  it as a bulk-synchronous computation of the whole communication group. A Context holds
  the per-vertex state, the messages received in the last exchange and the pending
  outgoing messages, each with the index of the partition it is destined for. A superstep
  exchanges the pending messages of all partitions, and only once every partition has
  sent and received (the barrier) runs \<^verbatim>\<open>IncEval\<close> on each of them. Each partition
  reports whether it has no pending outgoing messages; the loop ends when the conjunction
  of all the reports holds. \<open>rounds\<close> counts the \<^verbatim>\<open>IncEval\<close> rounds a partition has
  run, and the loop returns the number of supersteps with the final group. The loop need
  not end: it is a partial function, with \<open>None\<close> for a run that never reaches
  quiescence.
\<close>

record ('v, 'm) Context =
  vertex_data :: 'v
  incoming :: "'m list"
  outgoing :: "(nat \<times> 'm) list"

record ('f, 'v, 'm) partition =
  pfragment :: 'f
  pcontext :: "('v, 'm) Context"
  rounds :: nat

definition no_pending :: "('f, 'v, 'm) partition \<Rightarrow> bool" where
  "no_pending p \<longleftrightarrow> length (outgoing (pcontext p)) = 0"

definition global_quiescence :: "('f, 'v, 'm) partition list \<Rightarrow> bool" where
  "global_quiescence g = list_all (\<lambda>flag. flag) (map no_pending g)"

definition delivered :: "('f, 'v, 'm) partition list \<Rightarrow> nat \<Rightarrow> 'm list" where
  "delivered g i =
     concat (map (\<lambda>p. map snd (filter (\<lambda>dm. fst dm = i) (outgoing (pcontext p)))) g)"

definition exchange :: "('f, 'v, 'm) partition list \<Rightarrow> ('f, 'v, 'm) partition list" where
  "exchange g =
     map (\<lambda>(i, p). p\<lparr>pcontext := (pcontext p)\<lparr>incoming := delivered g i, outgoing := []\<rparr>\<rparr>)
       (enumerate 0 g)"

definition run_IncEval ::
  "('f, ('v, 'm) Context) callback \<Rightarrow> ('f, 'v, 'm) partition \<Rightarrow> ('f, 'v, 'm) partition" where
  "run_IncEval inceval p =
     p\<lparr>pcontext := inceval (pfragment p) (pcontext p), rounds := Suc (rounds p)\<rparr>"

definition superstep ::
  "('f, ('v, 'm) Context) callback \<Rightarrow> ('f, 'v, 'm) partition list \<Rightarrow>
   ('f, 'v, 'm) partition list" where
  "superstep inceval g = map (run_IncEval inceval) (exchange g)"

partial_function (option) superstep_loop ::
  "('f, ('v, 'm) Context) callback \<Rightarrow> nat \<Rightarrow> ('f, 'v, 'm) partition list \<Rightarrow>
   (nat \<times> ('f, 'v, 'm) partition list) option" where
  "superstep_loop inceval n g =
     (if global_quiescence g then Some (n, g)
      else superstep_loop inceval (Suc n) (superstep inceval g))"

text \<open>
  Modelled from the spec: the first query on a group (section 4.2, steps 1 to 5), in which
  \<^verbatim>\<open>Init\<close> populates each Context from the local fragment, \<^verbatim>\<open>PEval\<close> runs on
  local data, then the superstep loop runs to quiescence.
\<close>

definition run_PIE ::
  "('f, ('v, 'm) Context) callback \<Rightarrow> ('f, ('v, 'm) Context) callback \<Rightarrow>
   ('f, ('v, 'm) Context) callback \<Rightarrow> ('v, 'm) Context \<Rightarrow> 'f list \<Rightarrow>
   (nat \<times> ('f, 'v, 'm) partition list) option" where
  "run_PIE init peval inceval blank frags =
     superstep_loop inceval 0
       (map (\<lambda>f. \<lparr>pfragment = f, pcontext = peval f (init f blank), rounds = 0\<rparr>) frags)"

subsection \<open>The order of delivery\<close>

text \<open>
  Modelled from the spec: within a superstep the order in which messages are delivered is
  not guaranteed (section 5). The exchange above delivers the messages of a partition in
  the order of their senders; here the order is a further input of a run. A schedule
  gives, for each superstep and each partition, the order in which the messages destined
  for the partition arrive; it neither loses nor duplicates a message. Everything else
  is the loop above: the same reports, the same test for quiescence, the same round of
  \<^verbatim>\<open>IncEval\<close>. An \<^verbatim>\<open>IncEval\<close> is insensitive to the order when its result is the
  same for any two arrangements of the same messages.
\<close>

type_synonym 'm delivery_order = "nat \<Rightarrow> 'm list \<Rightarrow> 'm list"
type_synonym 'm schedule = "nat \<Rightarrow> 'm delivery_order"

definition delivers_all :: "'m schedule \<Rightarrow> bool" where
  "delivers_all sched \<longleftrightarrow> (\<forall>n i ms. mset (sched n i ms) = mset ms)"

definition scheduled_exchange ::
  "'m delivery_order \<Rightarrow> ('f, 'v, 'm) partition list \<Rightarrow> ('f, 'v, 'm) partition list" where
  "scheduled_exchange order g =
     map (\<lambda>(i, p).
            p\<lparr>pcontext := (pcontext p)\<lparr>incoming := order i (delivered g i), outgoing := []\<rparr>\<rparr>)
       (enumerate 0 g)"

definition scheduled_superstep ::
  "('f, ('v, 'm) Context) callback \<Rightarrow> 'm delivery_order \<Rightarrow> ('f, 'v, 'm) partition list \<Rightarrow>
   ('f, 'v, 'm) partition list" where
  "scheduled_superstep inceval order g = map (run_IncEval inceval) (scheduled_exchange order g)"

partial_function (option) scheduled_loop ::
  "('f, ('v, 'm) Context) callback \<Rightarrow> 'm schedule \<Rightarrow> nat \<Rightarrow> ('f, 'v, 'm) partition list \<Rightarrow>
   (nat \<times> ('f, 'v, 'm) partition list) option" where
  "scheduled_loop inceval sched n g =
     (if global_quiescence g then Some (n, g)
      else scheduled_loop inceval sched (Suc n) (scheduled_superstep inceval (sched n) g))"

definition scheduled_PIE ::
  "('f, ('v, 'm) Context) callback \<Rightarrow> ('f, ('v, 'm) Context) callback \<Rightarrow>
   ('f, ('v, 'm) Context) callback \<Rightarrow> ('v, 'm) Context \<Rightarrow> 'm schedule \<Rightarrow> 'f list \<Rightarrow>
   (nat \<times> ('f, 'v, 'm) partition list) option" where
  "scheduled_PIE init peval inceval blank sched frags =
     scheduled_loop inceval sched 0
       (map (\<lambda>f. \<lparr>pfragment = f, pcontext = peval f (init f blank), rounds = 0\<rparr>) frags)"

declare scheduled_loop.simps [code]

definition vertex_values ::
  "(nat \<times> ('f, 'v, 'm) partition list) option \<Rightarrow> 'v list option" where
  "vertex_values r = map_option (\<lambda>ng. map (\<lambda>p. vertex_data (pcontext p)) (snd ng)) r"

definition order_insensitive :: "('f, ('v, 'm) Context) callback \<Rightarrow> bool" where
  "order_insensitive inceval \<longleftrightarrow>
     (\<forall>f c ms ms'. mset ms = mset ms' \<longrightarrow>
        inceval f (c\<lparr>incoming := ms\<rparr>) = inceval f (c\<lparr>incoming := ms'\<rparr>))"

text \<open>The schedule of the exchange above: the messages arrive in the order of their senders.\<close>

definition sender_order :: "'m schedule" where
  "sender_order n i ms = ms"

subsection \<open>Concrete inputs\<close>

text \<open>
  A small application header and an empty process, used to run the frame on concrete
  inputs: fragments and contexts are natural numbers, the communication-group and
  parallelism specs carry no data.
\<close>

definition sample_header :: "(nat, nat) app_header" where
  "sample_header =
     \<lparr>Init = (\<lambda>frag c. frag), PEval = (\<lambda>frag c. Suc c), IncEval = (\<lambda>frag c. c)\<rparr>"

definition fresh_process :: "(nat, nat, unit, unit) process" where
  "fresh_process = initial_process"

definition sample_worker :: "(nat, nat, unit, unit) worker_t" where
  "sample_worker =
     \<lparr>app = \<lparr>program = \<lparr>init_func = Some (python_grape_Init sample_header),
        peval_func = Some (python_grape_PEval sample_header),
        inceval_func = Some (python_grape_IncEval sample_header)\<rparr>\<rparr>,
      fragment = 7, wcontext = None, comm_spec = Some (), parallel_spec = Some (),
      wstate = Ready\<rparr>"

definition one_worker :: "(nat, nat, unit, unit) process" where
  "one_worker = snd (CreateWorker sample_header ''app'' 0 7 () () None fresh_process)"

text \<open>
  A PIE cycle for these inputs: it rejects the argument \<open>0\<close> and otherwise leaves the
  sum of fragment and argument as the Context. A context wrapper is the key it was built
  under, the fragment wrapper and the Context it views.
\<close>

definition sample_pie :: "(nat, nat, nat) pie_cycle" where
  "sample_pie prog frag c query_args =
     (if query_args = 0 then Inl (ArgumentFailure ''no arguments'', c)
      else Inr (frag + query_args))"

definition sample_build :: "string \<Rightarrow> nat \<Rightarrow> nat option \<Rightarrow> (string \<times> nat \<times> nat option) option" where
  "sample_build key fw c = Some (key, fw, c)"

text \<open>
  A worker whose Program has only the first slot bound, and a process that holds it.
  \<^verbatim>\<open>CreateWorker\<close> does not produce such a worker.
\<close>

definition unbound_worker :: "(nat, nat, unit, unit) worker_t" where
  "unbound_worker =
     sample_worker\<lparr>app :=
       \<lparr>program = SetInitFunction (python_grape_Init sample_header) new_program\<rparr>\<rparr>"

definition unbound_process :: "(nat, nat, unit, unit) process" where
  "unbound_process = fresh_process\<lparr>handlers := [(1, \<lparr>worker = Some unbound_worker\<rparr>)]\<rparr>"

definition sample_out :: "(string \<times> nat \<times> nat option) query_out" where
  "sample_out = \<lparr>ctx_wrapper = None, wrapper_error = Inr ()\<rparr>"

text \<open>
  The toy graph of the spec's section 8: vertices 1 to 4 on a path, one vertex per
  partition, each fragment knowing its neighbours (their partition and identifier). The
  Program propagates labels: \<^verbatim>\<open>Init\<close> labels a vertex with its own identifier,
  \<^verbatim>\<open>PEval\<close> and \<^verbatim>\<open>IncEval\<close> adopt the least label seen and send it to the
  neighbours when the label changed.
\<close>

record toy_fragment =
  vertex :: nat
  neighbours :: "(nat \<times> nat) list"

definition adopt :: "toy_fragment \<Rightarrow> nat list \<Rightarrow> (nat, nat) Context \<Rightarrow> (nat, nat) Context" where
  "adopt frag labels c =
     (let m = fold min labels (vertex_data c)
      in if m < vertex_data c
         then \<lparr>vertex_data = m, incoming = [],
               outgoing = map (\<lambda>nb. (fst nb, m)) (neighbours frag)\<rparr>
         else c\<lparr>incoming := [], outgoing := []\<rparr>)"

definition label_Init :: "(toy_fragment, (nat, nat) Context) callback" where
  "label_Init frag c = \<lparr>vertex_data = vertex frag, incoming = [], outgoing = []\<rparr>"

definition label_PEval :: "(toy_fragment, (nat, nat) Context) callback" where
  "label_PEval frag c = adopt frag (map snd (neighbours frag)) c"

definition label_IncEval :: "(toy_fragment, (nat, nat) Context) callback" where
  "label_IncEval frag c = adopt frag (incoming c) c"

definition toy_graph :: "toy_fragment list" where
  "toy_graph =
     [\<lparr>vertex = 1, neighbours = [(1, 2)]\<rparr>,
      \<lparr>vertex = 2, neighbours = [(0, 1), (2, 3)]\<rparr>,
      \<lparr>vertex = 3, neighbours = [(1, 2), (3, 4)]\<rparr>,
      \<lparr>vertex = 4, neighbours = [(2, 3)]\<rparr>]"

definition blank_context :: "(nat, nat) Context" where
  "blank_context = \<lparr>vertex_data = 0, incoming = [], outgoing = []\<rparr>"

definition toy_group :: "(toy_fragment, nat, nat) partition list" where
  "toy_group =
     map (\<lambda>f. \<lparr>pfragment = f, pcontext = label_PEval f (label_Init f blank_context),
       rounds = 0\<rparr>) toy_graph"

definition toy_result :: "(toy_fragment, nat, nat) partition list" where
  "toy_result =
     map (\<lambda>f. \<lparr>pfragment = f, pcontext = \<lparr>vertex_data = 1, incoming = [], outgoing = []\<rparr>,
       rounds = 3\<rparr>) toy_graph"

text \<open>
  Two schedules and a Program that is sensitive to the order of arrival: \<^verbatim>\<open>PEval\<close>
  sends the label of the vertex to its neighbours, and \<^verbatim>\<open>IncEval\<close> looks at the first
  message received only. The graph is a path whose middle vertex, labelled 5, hears from
  the vertices labelled 3 and 1 in the same superstep.
\<close>

definition reverse_order :: "'m schedule" where
  "reverse_order n i ms = rev ms"

definition announce_PEval :: "(toy_fragment, (nat, nat) Context) callback" where
  "announce_PEval frag c =
     c\<lparr>outgoing := map (\<lambda>nb. (fst nb, vertex_data c)) (neighbours frag)\<rparr>"

definition first_IncEval :: "(toy_fragment, (nat, nat) Context) callback" where
  "first_IncEval frag c = adopt frag (take 1 (incoming c)) c"

definition fork_graph :: "toy_fragment list" where
  "fork_graph =
     [\<lparr>vertex = 3, neighbours = [(1, 5)]\<rparr>,
      \<lparr>vertex = 5, neighbours = [(0, 3), (2, 1)]\<rparr>,
      \<lparr>vertex = 1, neighbours = [(1, 5)]\<rparr>]"


section \<open>Properties of the frame\<close>

subsection \<open>Auxiliary facts\<close>

lemma fold_max_ge: "a \<le> fold max xs (a::nat)"
  by (induction xs arbitrary: a) (auto intro: order_trans [OF max.cobounded2])

lemma fold_max_mem: "x \<in> set xs \<Longrightarrow> x \<le> fold max xs (a::nat)"
  by (induction xs arbitrary: a) (auto intro: order_trans [OF max.cobounded1 fold_max_ge])

lemma new_addr_fresh: "map_of hs (new_addr hs) = None"
proof -
  have "new_addr hs \<notin> fst ` set hs"
  proof
    assume "new_addr hs \<in> fst ` set hs"
    then have "new_addr hs \<in> set (map fst hs)" by simp
    then have "new_addr hs \<le> fold max (map fst hs) 0" by (rule fold_max_mem)
    then show False by (simp add: new_addr_def)
  qed
  then show ?thesis by (simp add: map_of_eq_None_iff)
qed

lemma new_addr_not_null: "new_addr hs \<noteq> 0"
  by (simp add: new_addr_def)

lemma log_simps [simp]:
  "py (log c s) = py s" "handlers (log c s) = handlers s" "trace (log c s) = trace s @ [c]"
  by (simp_all add: log_def)

lemma set_handler_simps [simp]:
  "py (set_handler h x s) = py s" "trace (set_handler h x s) = trace s"
  "handlers (set_handler h x s) = AList.update h x (handlers s)"
  by (simp_all add: set_handler_def)

lemma handler_at_log [simp]: "handler_at (log c s) = handler_at s"
  by (simp add: handler_at_def fun_eq_iff)

lemma handler_at_set_handler [simp]:
  "handler_at (set_handler h x s) = (handler_at s)(h \<mapsto> x)"
  by (simp add: handler_at_def fun_eq_iff update_conv')

lemma worker_at_log [simp]: "worker_at (log c s) = worker_at s"
  by (simp add: worker_at_def fun_eq_iff)

lemma worker_at_set_handler:
  "worker_at (set_handler h x s) h' = (if h' = h then worker x else worker_at s h')"
  by (simp add: worker_at_def)

subsection \<open>AppInit and the Python runtime\<close>

lemma py_AppInit:
  "py (AppInit name err s) = (if err < 0 then py s else Py_Initialize (Py_Finalize (py s)))"
  by (simp add: AppInit_def Let_def Py_IsInitialized_def Py_Finalize_def)

lemma handlers_AppInit [simp]: "handlers (AppInit name err s) = handlers s"
  by (simp add: AppInit_def Let_def)

lemma trace_AppInit:
  "trace (AppInit name err s) =
     trace s @ Call_PyImport_AppendInittab name #
       (if err < 0 then [Call_printf cannot_initialize]
        else (if initialized (py s) then [Call_Py_Finalize] else []) @
             [Call_Py_Initialize, Call_PyImport_ImportModule name])"
  by (simp add: AppInit_def Let_def Py_IsInitialized_def)

lemma initialized_AppInit:
  "initialized (py (AppInit name err s)) = (if err < 0 then initialized (py s) else True)"
  by (simp add: py_AppInit Py_Initialize_def Py_Finalize_def)

lemma epoch_AppInit:
  "epoch (py (AppInit name err s)) = (if err < 0 then epoch (py s) else Suc (epoch (py s)))"
  by (simp add: py_AppInit Py_Initialize_def Py_Finalize_def)

text \<open>
  Claim C6, as amended. The Python runtime is process-global state with at most one
  interpreter. A call of \<^verbatim>\<open>AppInit\<close> in which registering the module succeeds
  (\<open>0 \<le> err\<close>) leaves exactly one interpreter active, and it is a fresh one: an
  interpreter that was active is finalized first, then a new one is initialized and the
  module imported, in this order. A call in which registering fails returns after the
  message and leaves the runtime as it found it, so no interpreter is active afterwards
  if none was before.
\<close>

theorem AppInit_one_interpreter:
  "(0 \<le> err \<longrightarrow>
      initialized (py (AppInit name err s)) \<and>
      epoch (py (AppInit name err s)) = Suc (epoch (py s)) \<and>
      trace (AppInit name err s) =
        trace s @ Call_PyImport_AppendInittab name #
          (if initialized (py s) then [Call_Py_Finalize] else []) @
          [Call_Py_Initialize, Call_PyImport_ImportModule name]) \<and>
   (err < 0 \<longrightarrow>
      py (AppInit name err s) = py s \<and>
      trace (AppInit name err s) =
        trace s @ [Call_PyImport_AppendInittab name, Call_printf cannot_initialize])"
proof (intro conjI impI)
  assume "0 \<le> err"
  then show "initialized (py (AppInit name err s))"
    and "epoch (py (AppInit name err s)) = Suc (epoch (py s))"
    and "trace (AppInit name err s) =
        trace s @ Call_PyImport_AppendInittab name #
          (if initialized (py s) then [Call_Py_Finalize] else []) @
          [Call_Py_Initialize, Call_PyImport_ImportModule name]"
    by (simp_all add: initialized_AppInit epoch_AppInit trace_AppInit)
next
  assume "err < 0"
  then show "py (AppInit name err s) = py s"
    and "trace (AppInit name err s) =
        trace s @ [Call_PyImport_AppendInittab name, Call_printf cannot_initialize]"
    by (simp_all add: py_AppInit trace_AppInit)
qed

theorem AppInit_one_interpreter_witness:
  "initialized (py (AppInit ''app'' 0 fresh_process)) \<and>
   epoch (py (AppInit ''app'' 0 fresh_process)) = Suc (epoch (py fresh_process)) \<and>
   py (AppInit ''app'' (- 1) fresh_process) = py fresh_process"
  using AppInit_one_interpreter [of 0 "''app''" fresh_process]
    AppInit_one_interpreter [of "- 1" "''app''" fresh_process]
  by simp

text \<open>
  The claim as stated (exactly one active interpreter after any call of \<^verbatim>\<open>AppInit\<close>)
  fails when registering the module fails in a process that has no interpreter yet.
\<close>

theorem AppInit_no_interpreter_counterexample:
  "\<not> initialized (py (AppInit ''app'' (- 1) fresh_process))"
  by (simp add: initialized_AppInit fresh_process_def initial_process_def)

subsection \<open>CreateApp and CreateWorker\<close>

lemma app_CreateApp:
  "fst (CreateApp hdr name err s) =
     \<lparr>program = \<lparr>init_func = Some (python_grape_Init hdr),
        peval_func = Some (python_grape_PEval hdr),
        inceval_func = Some (python_grape_IncEval hdr)\<rparr>\<rparr>"
  by (simp add: CreateApp_def Let_def new_program_def SetInitFunction_def
      SetPEvalFunction_def SetIncEvalFunction_def)

lemma snd_CreateApp: "snd (CreateApp hdr name err s) = AppInit name err s"
  by (simp add: CreateApp_def Let_def)

lemma CreateWorker_handle:
  "fst (CreateWorker hdr name err frag cs spec init_failure s) = new_addr (handlers s)"
  by (simp add: CreateWorker_def Let_def split_beta snd_CreateApp)

lemma CreateWorker_py:
  "py (snd (CreateWorker hdr name err frag cs spec init_failure s)) = py (AppInit name err s)"
  by (simp add: CreateWorker_def Let_def split_beta snd_CreateApp)

lemma CreateWorker_trace:
  "trace (snd (CreateWorker hdr name err frag cs spec init_failure s)) =
     trace (AppInit name err s) @
       [Call_new_handler (new_addr (handlers s)), Call_App_CreateWorker (new_addr (handlers s)),
        Call_worker_Init (new_addr (handlers s))]"
  by (simp add: CreateWorker_def Let_def split_beta snd_CreateApp)

lemma CreateWorker_handler_at:
  "handler_at (snd (CreateWorker hdr name err frag cs spec init_failure s)) =
     (handler_at s)(new_addr (handlers s) \<mapsto>
        \<lparr>worker = Some (snd (worker_Init cs spec init_failure
           (App_CreateWorker (fst (CreateApp hdr name err s)) frag)))\<rparr>)"
  by (simp add: CreateWorker_def Let_def split_beta snd_CreateApp handler_at_def fun_eq_iff
      update_conv')

lemma CreateWorker_worker_at:
  "worker_at (snd (CreateWorker hdr name err frag cs spec init_failure s)) h =
     (if h = new_addr (handlers s)
      then Some (snd (worker_Init cs spec init_failure
             (App_CreateWorker (fst (CreateApp hdr name err s)) frag)))
      else worker_at s h)"
  by (simp add: worker_at_def CreateWorker_handler_at)

lemma worker_Init_App_CreateWorker:
  "snd (worker_Init cs spec None (App_CreateWorker a frag)) =
     \<lparr>app = a, fragment = frag, wcontext = None, comm_spec = Some cs,
      parallel_spec = Some spec, wstate = Ready\<rparr>"
  by (simp add: worker_Init_def App_CreateWorker_def)

lemma app_worker_Init: "app (snd (worker_Init cs spec failure w)) = app w"
  by (simp add: worker_Init_def split: option.splits)

lemma Ready_worker_Init:
  "wstate (snd (worker_Init cs spec failure (App_CreateWorker a frag))) = Ready \<longleftrightarrow>
     failure = None"
  by (simp add: worker_Init_def App_CreateWorker_def split: option.splits)

lemma worker_at_new_addr: "worker_at s (new_addr (handlers s)) = None"
  by (simp add: worker_at_def handler_at_def new_addr_fresh)

text \<open>The concrete process with one worker, at the handle \<open>1\<close>.\<close>

lemma one_worker_eq:
  "CreateWorker sample_header ''app'' 0 7 () () None fresh_process = (1, one_worker)"
  by (simp add: one_worker_def prod_eq_iff CreateWorker_handle fresh_process_def
      initial_process_def new_addr_def)

lemma worker_at_one_worker: "worker_at one_worker 1 = Some sample_worker"
  by (simp add: one_worker_def CreateWorker_worker_at worker_Init_App_CreateWorker
      app_CreateApp sample_worker_def fresh_process_def initial_process_def new_addr_def)

lemma py_one_worker:
  "py one_worker = \<lparr>initialized = True, epoch = 1\<rparr>"
  by (simp add: one_worker_def CreateWorker_py py_AppInit fresh_process_def initial_process_def
      Py_Finalize_def Py_Initialize_def)

lemma trace_one_worker:
  "trace one_worker =
     [Call_PyImport_AppendInittab ''app'', Call_Py_Initialize,
      Call_PyImport_ImportModule ''app'', Call_new_handler 1, Call_App_CreateWorker 1,
      Call_worker_Init 1]"
  by (simp add: one_worker_def CreateWorker_trace trace_AppInit fresh_process_def
      initial_process_def new_addr_def)

lemma handlers_one_worker: "handlers one_worker = [(1, \<lparr>worker = Some sample_worker\<rparr>)]"
  by (simp add: one_worker_def CreateWorker_def Let_def split_beta snd_CreateApp
      worker_Init_App_CreateWorker app_CreateApp sample_worker_def fresh_process_def
      initial_process_def new_addr_def)

text \<open>
  Claim C1, as amended. For every fragment, communication-group spec and parallelism
  spec, \<^verbatim>\<open>CreateWorker\<close> binds the App to the Fragment, materializes the worker in a
  new handler (a handle that is not null and was not in use), and then calls the worker's
  \<^verbatim>\<open>Init\<close> with the two specs before it returns, as the last call it makes and without
  looking at its outcome. The worker behind the returned handle is the worker as that
  \<^verbatim>\<open>Init\<close> left it: it has the communication group and the parallelism configuration
  attached and is \<open>Ready\<close> when \<^verbatim>\<open>Init\<close> succeeds, and it is \<open>Ready\<close> only then.
\<close>

theorem CreateWorker_calls_Init:
  assumes "CreateWorker hdr name err frag cs spec init_failure s = (h, s')"
  shows "h \<noteq> 0 \<and> handler_at s h = None \<and>
     trace s' = trace (AppInit name err s) @
       [Call_new_handler h, Call_App_CreateWorker h, Call_worker_Init h] \<and>
     worker_at s' h =
       Some (snd (worker_Init cs spec init_failure
         (App_CreateWorker (fst (CreateApp hdr name err s)) frag))) \<and>
     map_option app (worker_at s' h) = Some (fst (CreateApp hdr name err s)) \<and>
     map_option fragment (worker_at s' h) = Some frag \<and>
     (init_failure = None \<longrightarrow>
        worker_at s' h =
          Some \<lparr>app = fst (CreateApp hdr name err s), fragment = frag, wcontext = None,
                comm_spec = Some cs, parallel_spec = Some spec, wstate = Ready\<rparr>) \<and>
     (map_option wstate (worker_at s' h) = Some Ready \<longleftrightarrow> init_failure = None)"
proof -
  have h: "h = new_addr (handlers s)"
    using assms CreateWorker_handle [of hdr name err frag cs spec init_failure s] by simp
  have s': "s' = snd (CreateWorker hdr name err frag cs spec init_failure s)"
    using assms by simp
  let ?w = "snd (worker_Init cs spec init_failure
      (App_CreateWorker (fst (CreateApp hdr name err s)) frag))"
  have w: "worker_at s' h = Some ?w"
    unfolding s' h by (simp add: CreateWorker_worker_at)
  have bound: "app ?w = fst (CreateApp hdr name err s)" "fragment ?w = frag"
    by (simp_all add: worker_Init_def App_CreateWorker_def split: option.splits)
  have ready: "wstate ?w = Ready \<longleftrightarrow> init_failure = None"
    by (rule Ready_worker_Init)
  have calls: "h \<noteq> 0 \<and> handler_at s h = None \<and>
     trace s' = trace (AppInit name err s) @
       [Call_new_handler h, Call_App_CreateWorker h, Call_worker_Init h]"
    unfolding s' h
    by (simp add: CreateWorker_trace new_addr_not_null new_addr_fresh handler_at_def)
  show ?thesis
    using calls w bound ready by (simp add: worker_Init_App_CreateWorker)
qed

lemma failed_init_eq:
  "CreateWorker sample_header ''app'' 0 7 () () (Some ''peer unreachable'') fresh_process =
     (1, snd (CreateWorker sample_header ''app'' 0 7 () () (Some ''peer unreachable'')
        fresh_process))"
  by (simp add: prod_eq_iff CreateWorker_handle fresh_process_def initial_process_def
      new_addr_def)

theorem CreateWorker_calls_Init_witness:
  "map_option wstate (worker_at one_worker 1) = Some Ready \<and>
   map_option comm_spec (worker_at one_worker 1) = Some (Some ()) \<and>
   trace one_worker = trace (AppInit ''app'' 0 fresh_process) @
     [Call_new_handler 1, Call_App_CreateWorker 1, Call_worker_Init 1] \<and>
   map_option wstate
     (worker_at (snd (CreateWorker sample_header ''app'' 0 7 () () (Some ''peer unreachable'')
        fresh_process)) 1) \<noteq> Some Ready \<and>
   trace (snd (CreateWorker sample_header ''app'' 0 7 () () (Some ''peer unreachable'')
        fresh_process)) = trace (AppInit ''app'' 0 fresh_process) @
     [Call_new_handler 1, Call_App_CreateWorker 1, Call_worker_Init 1]"
  using CreateWorker_calls_Init [OF one_worker_eq] CreateWorker_calls_Init [OF failed_init_eq]
  by (simp add: worker_Init_App_CreateWorker)

text \<open>
  The claim as stated (the worker is returned \<open>Uninitialized\<close>, \<^verbatim>\<open>Init\<close> is not
  called) fails on every input; here on the first worker of a process.
\<close>

theorem CreateWorker_Uninitialized_counterexample:
  "fst (CreateWorker sample_header ''app'' 0 7 () () None fresh_process) = 1 \<and>
   map_option wstate
     (worker_at (snd (CreateWorker sample_header ''app'' 0 7 () () None fresh_process)) 1) =
     Some Ready \<and>
   trace (snd (CreateWorker sample_header ''app'' 0 7 () () None fresh_process)) =
     [Call_PyImport_AppendInittab ''app'', Call_Py_Initialize,
      Call_PyImport_ImportModule ''app'', Call_new_handler 1, Call_App_CreateWorker 1,
      Call_worker_Init 1]"
  by (simp add: CreateWorker_worker_at CreateWorker_handle CreateWorker_trace
      worker_Init_App_CreateWorker fresh_process_def initial_process_def new_addr_def
      trace_AppInit)

text \<open>
  Claim C8. When registering the Python module fails inside \<^verbatim>\<open>AppInit\<close>
  (\<open>err < 0\<close>), \<^verbatim>\<open>AppInit\<close> prints its message and returns with the Python runtime
  untouched: no interpreter is initialized. \<^verbatim>\<open>CreateWorker\<close> goes on all the same: it
  binds the three callbacks, creates the worker, calls its \<^verbatim>\<open>Init\<close> and returns a
  handle that is not null. Its result carries no error.
\<close>

theorem CreateWorker_registration_failure:
  assumes "err < 0"
    and "CreateWorker hdr name err frag cs spec init_failure s = (h, s')"
  shows "py (AppInit name err s) = py s \<and>
     trace (AppInit name err s) =
       trace s @ [Call_PyImport_AppendInittab name, Call_printf cannot_initialize] \<and>
     h \<noteq> 0 \<and>
     map_option app (worker_at s' h) =
       Some \<lparr>program = \<lparr>init_func = Some (python_grape_Init hdr),
               peval_func = Some (python_grape_PEval hdr),
               inceval_func = Some (python_grape_IncEval hdr)\<rparr>\<rparr> \<and>
     map_option fragment (worker_at s' h) = Some frag \<and>
     (init_failure = None \<longrightarrow>
        worker_at s' h =
          Some \<lparr>app = \<lparr>program = \<lparr>init_func = Some (python_grape_Init hdr),
                   peval_func = Some (python_grape_PEval hdr),
                   inceval_func = Some (python_grape_IncEval hdr)\<rparr>\<rparr>,
                fragment = frag, wcontext = None, comm_spec = Some cs,
                parallel_spec = Some spec, wstate = Ready\<rparr>) \<and>
     py s' = py s \<and>
     trace s' = trace s @
       [Call_PyImport_AppendInittab name, Call_printf cannot_initialize,
        Call_new_handler h, Call_App_CreateWorker h, Call_worker_Init h]"
proof -
  have h: "h = new_addr (handlers s)"
    using assms(2) CreateWorker_handle [of hdr name err frag cs spec init_failure s] by simp
  have s': "s' = snd (CreateWorker hdr name err frag cs spec init_failure s)"
    using assms(2) by simp
  show ?thesis
    unfolding s' h using assms(1)
    by (simp add: CreateWorker_worker_at CreateWorker_trace CreateWorker_py
        worker_Init_App_CreateWorker app_CreateApp new_addr_not_null py_AppInit trace_AppInit
        App_CreateWorker_def worker_Init_def split: option.splits)
qed

theorem CreateWorker_registration_failure_witness:
  "fst (CreateWorker sample_header ''app'' (- 1) 7 () () None fresh_process) \<noteq> 0 \<and>
   py (snd (CreateWorker sample_header ''app'' (- 1) 7 () () None fresh_process)) =
     py fresh_process \<and>
   map_option wstate
     (worker_at (snd (CreateWorker sample_header ''app'' (- 1) 7 () () None fresh_process))
        (fst (CreateWorker sample_header ''app'' (- 1) 7 () () None fresh_process))) = Some Ready"
  using CreateWorker_registration_failure [of "- 1" sample_header "''app''" 7 "()" "()" None
      fresh_process
      "fst (CreateWorker sample_header ''app'' (- 1) 7 () () None fresh_process)"
      "snd (CreateWorker sample_header ''app'' (- 1) 7 () () None fresh_process)"]
  by simp

text \<open>
  Claim C7, as amended. Every call of \<^verbatim>\<open>CreateWorker\<close> goes through \<^verbatim>\<open>CreateApp\<close>
  and so through \<^verbatim>\<open>AppInit\<close>. When a second worker is created in a process whose
  interpreter is active and registering the module succeeds in that second call, the
  interpreter is finalized and a fresh one initialized in its place, while the first
  worker is still live behind its handle, unchanged.
\<close>

theorem second_CreateWorker_replaces_interpreter:
  assumes "CreateWorker hdr1 name1 err1 frag1 cs1 spec1 failure1 s0 = (h1, s1)"
    and "CreateWorker hdr2 name2 err2 frag2 cs2 spec2 failure2 s1 = (h2, s2)"
  shows "snd (CreateApp hdr2 name2 err2 s1) = AppInit name2 err2 s1 \<and>
     py (AppInit name2 err2 s1) = py s2 \<and>
     h2 \<noteq> h1 \<and>
     worker_at s1 h1 \<noteq> None \<and>
     worker_at s2 h1 = worker_at s1 h1 \<and>
     (initialized (py s1) \<and> 0 \<le> err2 \<longrightarrow>
        initialized (py s2) \<and>
        epoch (py s2) = Suc (epoch (py s1)) \<and>
        trace s2 = trace s1 @
          [Call_PyImport_AppendInittab name2, Call_Py_Finalize, Call_Py_Initialize,
           Call_PyImport_ImportModule name2,
           Call_new_handler h2, Call_App_CreateWorker h2, Call_worker_Init h2])"
proof -
  have h1: "h1 = new_addr (handlers s0)"
    using assms(1) CreateWorker_handle [of hdr1 name1 err1 frag1 cs1 spec1 failure1 s0] by simp
  have s1: "s1 = snd (CreateWorker hdr1 name1 err1 frag1 cs1 spec1 failure1 s0)"
    using assms(1) by simp
  have h2: "h2 = new_addr (handlers s1)"
    using assms(2) CreateWorker_handle [of hdr2 name2 err2 frag2 cs2 spec2 failure2 s1] by simp
  have s2: "s2 = snd (CreateWorker hdr2 name2 err2 frag2 cs2 spec2 failure2 s1)"
    using assms(2) by simp
  have live: "worker_at s1 h1 \<noteq> None"
    unfolding s1 h1 by (simp add: CreateWorker_worker_at)
  have fresh: "worker_at s1 h2 = None"
    unfolding h2 by (rule worker_at_new_addr)
  have neq: "h2 \<noteq> h1"
    using live fresh by auto
  have kept: "worker_at s2 h1 = worker_at s1 h1"
    unfolding s2 using neq h2 by (simp add: CreateWorker_worker_at)
  have through: "py (AppInit name2 err2 s1) = py s2"
    unfolding s2 by (rule CreateWorker_py [symmetric])
  have replaced: "initialized (py s2) \<and> epoch (py s2) = Suc (epoch (py s1)) \<and>
      trace s2 = trace s1 @
        [Call_PyImport_AppendInittab name2, Call_Py_Finalize, Call_Py_Initialize,
         Call_PyImport_ImportModule name2,
         Call_new_handler h2, Call_App_CreateWorker h2, Call_worker_Init h2]"
    if "initialized (py s1)" and "0 \<le> err2"
    unfolding s2 using that h2
    by (simp add: CreateWorker_py initialized_AppInit epoch_AppInit CreateWorker_trace
        trace_AppInit)
  show ?thesis
    using neq live kept through replaced by (simp add: snd_CreateApp)
qed

lemma initialized_one_worker: "initialized (py one_worker)"
  by (simp add: py_one_worker)

theorem second_CreateWorker_replaces_interpreter_witness:
  "fst (CreateWorker sample_header ''app'' 0 8 () () None one_worker) \<noteq> 1 \<and>
   worker_at (snd (CreateWorker sample_header ''app'' 0 8 () () None one_worker)) 1 =
     worker_at one_worker 1 \<and>
   epoch (py one_worker) = 1 \<and>
   epoch (py (snd (CreateWorker sample_header ''app'' 0 8 () () None one_worker))) = 2"
proof -
  note t = second_CreateWorker_replaces_interpreter [OF one_worker_eq,
      of sample_header "''app''" 0 8 "()" "()" None
      "fst (CreateWorker sample_header ''app'' 0 8 () () None one_worker)"
      "snd (CreateWorker sample_header ''app'' 0 8 () () None one_worker)"]
  from t have a: "fst (CreateWorker sample_header ''app'' 0 8 () () None one_worker) \<noteq> 1"
    by simp
  from t have b: "worker_at (snd (CreateWorker sample_header ''app'' 0 8 () () None one_worker)) 1 =
      worker_at one_worker 1"
    by simp
  from t initialized_one_worker
  have c: "epoch (py (snd (CreateWorker sample_header ''app'' 0 8 () () None one_worker))) =
      Suc (epoch (py one_worker))"
    by simp
  from a b c show ?thesis
    by (simp add: py_one_worker)
qed

text \<open>
  The claim as stated (a second worker always tears the interpreter down) fails when
  registering the module fails in the second call: \<^verbatim>\<open>AppInit\<close> returns before
  \<^verbatim>\<open>Py_Finalize\<close>, and the interpreter of the first worker stays.
\<close>

theorem second_CreateWorker_failed_registration_counterexample:
  "initialized (py one_worker) \<and>
   py (snd (CreateWorker sample_header ''app'' (- 1) 8 () () None one_worker)) = py one_worker \<and>
   trace (snd (CreateWorker sample_header ''app'' (- 1) 8 () () None one_worker)) =
     trace one_worker @
       [Call_PyImport_AppendInittab ''app'', Call_printf cannot_initialize,
        Call_new_handler 2, Call_App_CreateWorker 2, Call_worker_Init 2]"
proof (intro conjI)
  show "initialized (py one_worker)"
    by (rule initialized_one_worker)
  show "py (snd (CreateWorker sample_header ''app'' (- 1) 8 () () None one_worker)) = py one_worker"
    by (simp add: CreateWorker_py py_AppInit)
  show "trace (snd (CreateWorker sample_header ''app'' (- 1) 8 () () None one_worker)) =
     trace one_worker @
       [Call_PyImport_AppendInittab ''app'', Call_printf cannot_initialize,
        Call_new_handler 2, Call_App_CreateWorker 2, Call_worker_Init 2]"
    by (simp add: CreateWorker_trace trace_AppInit handlers_one_worker new_addr_def)
qed

subsection \<open>DeleteWorker\<close>

text \<open>
  Claim C4. For every valid worker handle (a live handler whose worker pointer is not
  null), \<^verbatim>\<open>DeleteWorker\<close> returns, and it has called the worker's \<^verbatim>\<open>Finalize\<close>, then
  released the handler's reference to the worker, then deleted the handler, in this
  order; the handle is no longer live afterwards and nothing else has changed.
\<close>

theorem DeleteWorker_order:
  assumes "worker_at s h = Some w"
  shows "DeleteWorker h s =
     Some (s\<lparr>handlers := AList.delete h (handlers s),
             trace := trace s @
               [Call_worker_Finalize h, Call_worker_reset h, Call_delete_handler h]\<rparr>)"
  using assms
  by (simp add: DeleteWorker_def Let_def log_def set_handler_def delete_update_same)

theorem DeleteWorker_order_witness:
  "DeleteWorker 1 one_worker =
     Some \<lparr>py = \<lparr>initialized = True, epoch = 1\<rparr>,
           handlers = [],
           trace = [Call_PyImport_AppendInittab ''app'', Call_Py_Initialize,
             Call_PyImport_ImportModule ''app'', Call_new_handler 1, Call_App_CreateWorker 1,
             Call_worker_Init 1, Call_worker_Finalize 1, Call_worker_reset 1,
             Call_delete_handler 1]\<rparr>"
  using DeleteWorker_order [OF worker_at_one_worker]
  by (simp add: trace_one_worker handlers_one_worker py_one_worker)

subsection \<open>Query\<close>

lemma sample_invoke_success:
  "AppInvoker_Query sample_pie sample_worker 5 = (Inr (), sample_worker\<lparr>wcontext := Some 12\<rparr>)"
  by (simp add: AppInvoker_Query_def sample_pie_def sample_worker_def all_bound_def)

lemma sample_invoke_failure:
  "AppInvoker_Query sample_pie sample_worker 0 =
     (Inl (ArgumentError ''no arguments''), sample_worker)"
  by (simp add: AppInvoker_Query_def sample_pie_def sample_worker_def all_bound_def)

text \<open>
  Claim C2. Take a \<^verbatim>\<open>Query\<close> call on a valid handle whose evaluation succeeds and
  leaves the worker as \<open>w'\<close>. With an empty result key the call returns both
  out-parameters as they were passed in: no wrapper is built and \<^verbatim>\<open>ctx_wrapper\<close> is not
  assigned. With a non-empty key \<^verbatim>\<open>ctx_wrapper\<close> is assigned the wrapper built under
  that key from the Context of \<open>w'\<close>, which is the worker the handle points to when
  \<^verbatim>\<open>Query\<close> returns.
\<close>

theorem Query_publication:
  assumes "worker_at s h = Some w"
    and "invoke w query_args = (Inr u, w')"
    and "s1 = log (Call_AppInvoker_Query h) (set_handler h \<lparr>worker = Some w'\<rparr> s)"
  shows "(context_key = [] \<longrightarrow>
       Query invoke build h query_args context_key frag_wrapper out s = Some (out, s1)) \<and>
     (context_key \<noteq> [] \<longrightarrow>
       Query invoke build h query_args context_key frag_wrapper out s =
         Some (out\<lparr>ctx_wrapper := build context_key frag_wrapper (wcontext w')\<rparr>,
               log (Call_CtxWrapperBuilder_build context_key) (log (Call_GetContext h) s1))) \<and>
     worker_at s1 h = Some w'"
  using assms
  by (simp add: Query_def Let_def worker_at_set_handler)

theorem Query_publication_witness:
  "map_option fst
     (Query (AppInvoker_Query sample_pie) sample_build 1 5 [] 3 sample_out one_worker) =
     Some sample_out \<and>
   map_option fst
     (Query (AppInvoker_Query sample_pie) sample_build 1 5 ''result'' 3 sample_out one_worker) =
     Some (sample_out\<lparr>ctx_wrapper := Some (''result'', 3, Some 12)\<rparr>)"
  using Query_publication [where invoke = "AppInvoker_Query sample_pie" and query_args = 5
      and build = sample_build and context_key = "[]" and frag_wrapper = 3
      and out = sample_out, OF worker_at_one_worker sample_invoke_success refl]
    Query_publication [where invoke = "AppInvoker_Query sample_pie" and query_args = 5
      and build = sample_build and context_key = "''result''" and frag_wrapper = 3
      and out = sample_out, OF worker_at_one_worker sample_invoke_success refl]
  by (simp add: sample_build_def)

text \<open>
  Claim C3. When the evaluation fails, \<^verbatim>\<open>Query\<close> still returns: the failure is
  assigned to \<^verbatim>\<open>wrapper_error\<close> as a value, the call of the invoker is the only call
  made, and \<^verbatim>\<open>ctx_wrapper\<close> keeps what the caller passed in, whatever the result key.
\<close>

theorem Query_failure:
  assumes "worker_at s h = Some w"
    and "invoke w query_args = (Inl e, w')"
  shows "Query invoke build h query_args context_key frag_wrapper out s =
       Some (out\<lparr>wrapper_error := Inl e\<rparr>,
             log (Call_AppInvoker_Query h) (set_handler h \<lparr>worker = Some w'\<rparr> s)) \<and>
     ctx_wrapper (out\<lparr>wrapper_error := Inl e\<rparr>) = ctx_wrapper out"
  using assms
  by (simp add: Query_def Let_def)

theorem Query_failure_witness:
  "map_option fst
     (Query (AppInvoker_Query sample_pie) sample_build 1 0 ''result'' 3 sample_out one_worker) =
     Some \<lparr>ctx_wrapper = None, wrapper_error = Inl (ArgumentError ''no arguments'')\<rparr>"
  using Query_failure [where invoke = "AppInvoker_Query sample_pie" and query_args = 0
      and build = sample_build and context_key = "''result''" and frag_wrapper = 3
      and out = sample_out, OF worker_at_one_worker sample_invoke_failure]
  by (simp add: sample_out_def)

subsection \<open>Bound callbacks\<close>

lemma error_of_not_Configuration: "error_of f \<noteq> ConfigurationError msg"
  by (cases f) simp_all


lemma AppInvoker_Query_app: "app (snd (AppInvoker_Query pie w query_args)) = app w"
  by (simp add: AppInvoker_Query_def split: sum.splits prod.splits)

lemma AppInvoker_Query_bound:
  "all_bound (program (app w)) \<Longrightarrow>
     fst (AppInvoker_Query pie w query_args) \<noteq> Inl (ConfigurationError unbound_slot)"
  by (auto simp add: AppInvoker_Query_def error_of_not_Configuration not_ready_def
      unbound_slot_def split: sum.splits prod.splits)

lemma queries_app:
  "app (fold (\<lambda>a v. snd (AppInvoker_Query pie v a)) earlier w) = app w"
  by (induction earlier arbitrary: w) (simp_all add: AppInvoker_Query_app)

lemma AppInvoker_Query_unbound:
  assumes "\<not> all_bound (program (app w))"
  shows "AppInvoker_Query pie w query_args =
     (if wstate w = Ready then (Inl (ConfigurationError unbound_slot), w)
      else (Inl (ConfigurationError not_ready),
            if wstate w = Uninitialized then w\<lparr>wstate := Poisoned\<rparr> else w))"
  using assms by (simp add: AppInvoker_Query_def)

text \<open>
  Claim C5. \<^verbatim>\<open>CreateApp\<close> binds all three callback slots before it constructs the
  App. So the worker behind a handle returned by \<^verbatim>\<open>CreateWorker\<close> has all three bound,
  and a query on it, whatever queries it has served before, never ends in the
  ConfigurationError for an unbound slot. On a worker whose Program has a slot unbound,
  \<^verbatim>\<open>Query\<close> delivers a ConfigurationError (the one for the unbound slot when the worker
  is \<open>Ready\<close>) without any evaluation: the Context is as before and the outcome does not
  depend on the PIE cycle.
\<close>

theorem callbacks_always_bound:
  "all_bound (program (fst (CreateApp hdr name err s))) \<and>
   (CreateWorker hdr name err frag cs spec init_failure s = (h, s') \<longrightarrow>
      (\<exists>w. worker_at s' h = Some w \<and> all_bound (program (app w)) \<and>
         fst (AppInvoker_Query pie
               (fold (\<lambda>a v. snd (AppInvoker_Query pie v a)) earlier w) query_args) \<noteq>
           Inl (ConfigurationError unbound_slot))) \<and>
   (worker_at t k = Some v \<and> \<not> all_bound (program (app v)) \<longrightarrow>
      (\<exists>msg v'. Query (AppInvoker_Query pie) build k query_args context_key frag_wrapper out t =
           Some (out\<lparr>wrapper_error := Inl (ConfigurationError msg)\<rparr>,
                 log (Call_AppInvoker_Query k) (set_handler k \<lparr>worker = Some v'\<rparr> t)) \<and>
         (wstate v = Ready \<longrightarrow> msg = unbound_slot \<and> v' = v) \<and>
         wcontext v' = wcontext v \<and>
         AppInvoker_Query pie' v query_args = AppInvoker_Query pie v query_args))"
proof (intro conjI impI)
  show b: "all_bound (program (fst (CreateApp hdr name err s)))"
    by (simp add: app_CreateApp all_bound_def)
  {
    assume a: "CreateWorker hdr name err frag cs spec init_failure s = (h, s')"
    let ?w = "snd (worker_Init cs spec init_failure
        (App_CreateWorker (fst (CreateApp hdr name err s)) frag))"
    have "h = new_addr (handlers s)" "s' = snd (CreateWorker hdr name err frag cs spec init_failure s)"
      using a CreateWorker_handle [of hdr name err frag cs spec init_failure s] by simp_all
    then have w: "worker_at s' h = Some ?w"
      by (simp add: CreateWorker_worker_at)
    have "app ?w = fst (CreateApp hdr name err s)"
      by (simp add: app_worker_Init App_CreateWorker_def)
    then have bw: "all_bound (program (app ?w))"
      using b by simp
    let ?v = "fold (\<lambda>a v. snd (AppInvoker_Query pie v a)) earlier ?w"
    have "all_bound (program (app ?v))"
      using bw by (simp add: queries_app)
    then have "fst (AppInvoker_Query pie ?v query_args) \<noteq>
        Inl (ConfigurationError unbound_slot)"
      by (rule AppInvoker_Query_bound)
    then show "\<exists>w. worker_at s' h = Some w \<and> all_bound (program (app w)) \<and>
         fst (AppInvoker_Query pie
               (fold (\<lambda>a v. snd (AppInvoker_Query pie v a)) earlier w) query_args) \<noteq>
           Inl (ConfigurationError unbound_slot)"
      using w bw by (intro exI [of _ ?w]) simp
  }
  {
    assume a: "worker_at t k = Some v \<and> \<not> all_bound (program (app v))"
    then have u: "\<not> all_bound (program (app v))" and v: "worker_at t k = Some v"
      by simp_all
    define msg where "msg = (if wstate v = Ready then unbound_slot else not_ready)"
    define v' where
      "v' = (if wstate v = Uninitialized then v\<lparr>wstate := Poisoned\<rparr> else v)"
    have q: "AppInvoker_Query pie v query_args = (Inl (ConfigurationError msg), v')"
      by (simp add: AppInvoker_Query_unbound [OF u] msg_def v'_def)
    have c: "wcontext v' = wcontext v"
      by (simp add: v'_def)
    have r: "wstate v = Ready \<longrightarrow> msg = unbound_slot \<and> v' = v"
      by (simp add: msg_def v'_def)
    have "Query (AppInvoker_Query pie) build k query_args context_key frag_wrapper out t =
           Some (out\<lparr>wrapper_error := Inl (ConfigurationError msg)\<rparr>,
                 log (Call_AppInvoker_Query k) (set_handler k \<lparr>worker = Some v'\<rparr> t))"
      using v q by (simp add: Query_def Let_def)
    moreover have "AppInvoker_Query pie' v query_args = AppInvoker_Query pie v query_args"
      by (simp add: AppInvoker_Query_unbound [OF u])
    ultimately have "Query (AppInvoker_Query pie) build k query_args context_key frag_wrapper out t =
           Some (out\<lparr>wrapper_error := Inl (ConfigurationError msg)\<rparr>,
                 log (Call_AppInvoker_Query k) (set_handler k \<lparr>worker = Some v'\<rparr> t)) \<and>
         (wstate v = Ready \<longrightarrow> msg = unbound_slot \<and> v' = v) \<and>
         wcontext v' = wcontext v \<and>
         AppInvoker_Query pie' v query_args = AppInvoker_Query pie v query_args"
      using c r by simp
    then show "\<exists>msg v'. Query (AppInvoker_Query pie) build k query_args context_key frag_wrapper out t =
           Some (out\<lparr>wrapper_error := Inl (ConfigurationError msg)\<rparr>,
                 log (Call_AppInvoker_Query k) (set_handler k \<lparr>worker = Some v'\<rparr> t)) \<and>
         (wstate v = Ready \<longrightarrow> msg = unbound_slot \<and> v' = v) \<and>
         wcontext v' = wcontext v \<and>
         AppInvoker_Query pie' v query_args = AppInvoker_Query pie v query_args"
      by (intro exI [of _ msg] exI [of _ v'])
  }
qed

lemma worker_at_unbound_process: "worker_at unbound_process 1 = Some unbound_worker"
  by (simp add: unbound_process_def worker_at_def handler_at_def)

lemma unbound_worker_unbound: "\<not> all_bound (program (app unbound_worker))"
  by (simp add: unbound_worker_def all_bound_def SetInitFunction_def new_program_def)

lemma unbound_worker_Ready: "wstate unbound_worker = Ready"
  by (simp add: unbound_worker_def sample_worker_def)

theorem callbacks_always_bound_witness:
  "all_bound (program (fst (CreateApp sample_header ''app'' 0 fresh_process))) \<and>
   map_option fst
     (Query (AppInvoker_Query sample_pie) sample_build 1 5 ''result'' 3 sample_out
        unbound_process) =
     Some (sample_out\<lparr>wrapper_error := Inl (ConfigurationError unbound_slot)\<rparr>) \<and>
   all_bound (program (app sample_worker)) \<and>
   fst (AppInvoker_Query sample_pie
         (fold (\<lambda>a v. snd (AppInvoker_Query sample_pie v a)) [5, 0] sample_worker) 5) \<noteq>
     Inl (ConfigurationError unbound_slot)"
proof -
  note t = callbacks_always_bound [where hdr = sample_header and name = "''app''" and err = 0
      and s = fresh_process and frag = 7 and cs = "()" and spec = "()"
      and init_failure = None and h = 1
      and s' = one_worker and pie = sample_pie and query_args = 5 and earlier = "[5, 0]"
      and t = unbound_process and k = 1 and v = unbound_worker and build = sample_build
      and context_key = "''result''" and frag_wrapper = 3 and out = sample_out
      and pie' = sample_pie]
  from t have 1: "all_bound (program (fst (CreateApp sample_header ''app'' 0 fresh_process)))"
    by (rule conjunct1)
  from t one_worker_eq worker_at_one_worker
  have 2: "all_bound (program (app sample_worker)) \<and>
      fst (AppInvoker_Query sample_pie
            (fold (\<lambda>a v. snd (AppInvoker_Query sample_pie v a)) [5, 0] sample_worker) 5) \<noteq>
        Inl (ConfigurationError unbound_slot)"
    by simp
  from t worker_at_unbound_process unbound_worker_unbound unbound_worker_Ready
  have 3: "map_option fst
     (Query (AppInvoker_Query sample_pie) sample_build 1 5 ''result'' 3 sample_out
        unbound_process) =
     Some (sample_out\<lparr>wrapper_error := Inl (ConfigurationError unbound_slot)\<rparr>)"
    by auto
  from 1 2 3 show ?thesis by simp
qed

section \<open>Properties of the superstep loop\<close>

lemma map_snd_enumerate: "map (\<lambda>x. f (snd x)) (enumerate n xs) = map f xs"
  by (induction xs arbitrary: n) simp_all

lemma rounds_superstep: "map rounds (superstep inceval g) = map Suc (map rounds g)"
  by (simp add: superstep_def exchange_def run_IncEval_def split_beta comp_def)
    (rule map_snd_enumerate [where f = "\<lambda>x. Suc (rounds x)"])

lemma rounds_funpow:
  "map rounds ((superstep inceval ^^ k) g) = map (\<lambda>r. r + k) (map rounds g)"
  by (induction k) (simp_all add: rounds_superstep comp_def)

lemma superstep_loop_reaches:
  assumes "global_quiescence ((superstep inceval ^^ k) g)"
    and "\<forall>j<k. \<not> global_quiescence ((superstep inceval ^^ j) g)"
  shows "superstep_loop inceval n g = Some (n + k, (superstep inceval ^^ k) g)"
  using assms
proof (induction k arbitrary: n g)
  case 0
  then show ?case by (simp add: superstep_loop.simps)
next
  case (Suc k)
  from Suc.prems(2) have nq: "\<not> global_quiescence g"
    by (auto dest: spec [of _ 0])
  have q: "global_quiescence ((superstep inceval ^^ k) (superstep inceval g))"
    using Suc.prems(1) by (simp add: funpow_swap1)
  have later: "\<forall>j<k. \<not> global_quiescence ((superstep inceval ^^ j) (superstep inceval g))"
  proof (intro allI impI)
    fix j assume "j < k"
    then have "Suc j < Suc k" by simp
    with Suc.prems(2) have "\<not> global_quiescence ((superstep inceval ^^ Suc j) g)" by blast
    then show "\<not> global_quiescence ((superstep inceval ^^ j) (superstep inceval g))"
      by (simp add: funpow_swap1)
  qed
  have "superstep_loop inceval n g = superstep_loop inceval (Suc n) (superstep inceval g)"
    using nq by (subst superstep_loop.simps) simp
  also have "\<dots> = Some (Suc n + k, (superstep inceval ^^ k) (superstep inceval g))"
    by (rule Suc.IH [OF q later])
  finally show ?case by (simp add: funpow_swap1)
qed

lemma superstep_loop_returns:
  assumes "superstep_loop inceval n g = Some r"
  shows "\<exists>k. r = (n + k, (superstep inceval ^^ k) g) \<and>
     global_quiescence ((superstep inceval ^^ k) g) \<and>
     (\<forall>j<k. \<not> global_quiescence ((superstep inceval ^^ j) g))"
  using assms
proof (induction inceval n g r rule: superstep_loop.raw_induct [rotated, consumes 1])
  case (1 loop inceval n g r)
  show ?case
  proof (cases "global_quiescence g")
    case True
    with 1(2) have "r = (n + 0, (superstep inceval ^^ 0) g)" by simp
    with True show ?thesis by (intro exI [of _ 0]) simp
  next
    case False
    with 1(2) have "loop inceval (Suc n) (superstep inceval g) = Some r" by simp
    from 1(1) [OF this] obtain k where
      r: "r = (Suc n + k, (superstep inceval ^^ k) (superstep inceval g))"
      and q: "global_quiescence ((superstep inceval ^^ k) (superstep inceval g))"
      and nq: "\<forall>j<k. \<not> global_quiescence ((superstep inceval ^^ j) (superstep inceval g))"
      by blast
    have "\<forall>j<Suc k. \<not> global_quiescence ((superstep inceval ^^ j) g)"
    proof (intro allI impI)
      fix j assume j: "j < Suc k"
      show "\<not> global_quiescence ((superstep inceval ^^ j) g)"
      proof (cases j)
        case 0
        with False show ?thesis by simp
      next
        case (Suc i)
        with j nq show ?thesis by (simp add: funpow_swap1)
      qed
    qed
    with r q show ?thesis
      by (intro exI [of _ "Suc k"]) (simp add: funpow_swap1)
  qed
qed

text \<open>
  Claim C9. The superstep loop returns exactly when the group reaches a superstep at
  which all partitions at once report zero pending outgoing messages, and it returns at
  the first such superstep: it returns after \<open>k\<close> supersteps with the group \<open>g'\<close> if
  and only if \<open>g'\<close> is the group after \<open>k\<close> supersteps, every partition of \<open>g'\<close>
  reports no pending messages, and after every smaller number of supersteps some
  partition still had pending messages. No partition leaves the loop on its own: when it
  returns, every partition has run the same \<open>k\<close> rounds. (If no superstep is quiescent,
  the loop does not return.)
\<close>

theorem superstep_loop_global_quiescence:
  "superstep_loop inceval n g = Some (n', g') \<longleftrightarrow>
     (\<exists>k. n' = n + k \<and> g' = (superstep inceval ^^ k) g \<and>
        global_quiescence g' \<and>
        (\<forall>j<k. \<not> global_quiescence ((superstep inceval ^^ j) g)) \<and>
        map rounds g' = map (\<lambda>r. r + k) (map rounds g))"
proof
  assume "superstep_loop inceval n g = Some (n', g')"
  from superstep_loop_returns [OF this] obtain k where
    "n' = n + k" "g' = (superstep inceval ^^ k) g"
    "global_quiescence ((superstep inceval ^^ k) g)"
    "\<forall>j<k. \<not> global_quiescence ((superstep inceval ^^ j) g)"
    by auto
  then show "\<exists>k. n' = n + k \<and> g' = (superstep inceval ^^ k) g \<and>
        global_quiescence g' \<and>
        (\<forall>j<k. \<not> global_quiescence ((superstep inceval ^^ j) g)) \<and>
        map rounds g' = map (\<lambda>r. r + k) (map rounds g)"
    by (intro exI [of _ k]) (simp add: rounds_funpow)
next
  assume "\<exists>k. n' = n + k \<and> g' = (superstep inceval ^^ k) g \<and>
        global_quiescence g' \<and>
        (\<forall>j<k. \<not> global_quiescence ((superstep inceval ^^ j) g)) \<and>
        map rounds g' = map (\<lambda>r. r + k) (map rounds g)"
  then obtain k where k: "n' = n + k" "g' = (superstep inceval ^^ k) g"
    "global_quiescence g'" "\<forall>j<k. \<not> global_quiescence ((superstep inceval ^^ j) g)"
    by blast
  from superstep_loop_reaches [where inceval = inceval and k = k and g = g and n = n] k
  show "superstep_loop inceval n g = Some (n', g')" by simp
qed

lemma toy_iterate: "(superstep label_IncEval ^^ 3) toy_group = toy_result"
  by code_simp

lemma toy_quiescent: "global_quiescence toy_result"
  by code_simp

lemma toy_pending:
  "\<not> global_quiescence toy_group"
  "\<not> global_quiescence (superstep label_IncEval toy_group)"
  "\<not> global_quiescence (superstep label_IncEval (superstep label_IncEval toy_group))"
  by code_simp+

lemma toy_not_earlier: "\<forall>j<3. \<not> global_quiescence ((superstep label_IncEval ^^ j) toy_group)"
proof (intro allI impI)
  fix j :: nat assume "j < 3"
  then consider "j = 0" | "j = 1" | "j = 2" by linarith
  then show "\<not> global_quiescence ((superstep label_IncEval ^^ j) toy_group)"
    by cases (simp_all add: toy_pending numeral_2_eq_2)
qed

lemma toy_rounds: "map rounds toy_result = map (\<lambda>r. r + 3) (map rounds toy_group)"
  by code_simp

theorem superstep_loop_global_quiescence_witness:
  "superstep_loop label_IncEval 0 toy_group = Some (3, toy_result) \<and>
   run_PIE label_Init label_PEval label_IncEval blank_context toy_graph = Some (3, toy_result) \<and>
   map (\<lambda>p. vertex_data (pcontext p)) toy_result = [1, 1, 1, 1] \<and>
   map (\<lambda>p. outgoing (pcontext p)) toy_result = [[], [], [], []] \<and>
   map rounds toy_result = [3, 3, 3, 3]"
proof -
  have "\<exists>k. 3 = 0 + k \<and> toy_result = (superstep label_IncEval ^^ k) toy_group \<and>
        global_quiescence toy_result \<and>
        (\<forall>j<k. \<not> global_quiescence ((superstep label_IncEval ^^ j) toy_group)) \<and>
        map rounds toy_result = map (\<lambda>r. r + k) (map rounds toy_group)"
    by (intro exI [of _ 3]) (simp add: toy_iterate toy_quiescent toy_not_earlier toy_rounds)
  then have run: "superstep_loop label_IncEval 0 toy_group = Some (3, toy_result)"
    by (rule superstep_loop_global_quiescence [THEN iffD2])
  then show ?thesis
    by (simp add: run_PIE_def toy_group_def [symmetric]) (simp add: toy_result_def toy_graph_def)
qed

section \<open>Properties of the delivery order\<close>

lemma incoming_outgoing_update:
  "c\<lparr>incoming := ms, outgoing := out\<rparr> = (c\<lparr>outgoing := out\<rparr>)\<lparr>incoming := ms\<rparr>"
  by (cases c) simp

lemma scheduled_superstep_eq:
  assumes "order_insensitive inceval"
    and "\<And>i ms. mset (order i ms) = mset (order' i ms)"
  shows "scheduled_superstep inceval order g = scheduled_superstep inceval order' g"
proof -
  have "inceval f (c\<lparr>incoming := order i ms, outgoing := []\<rparr>) =
      inceval f (c\<lparr>incoming := order' i ms, outgoing := []\<rparr>)" for f c i ms
    unfolding incoming_outgoing_update
    using assms unfolding order_insensitive_def by blast
  then show ?thesis
    by (simp add: scheduled_superstep_def scheduled_exchange_def run_IncEval_def split_beta)
qed

lemma scheduled_loop_transfer:
  assumes "scheduled_loop inceval sched n g = Some r"
    and "order_insensitive inceval"
    and "delivers_all sched"
    and "delivers_all sched'"
  shows "scheduled_loop inceval sched' n g = Some r"
  using assms
proof (induction inceval sched n g r rule: scheduled_loop.raw_induct [rotated, consumes 1])
  case (1 loop inceval sched n g r)
  show ?case
  proof (cases "global_quiescence g")
    case True
    with 1(2) show ?thesis by (simp add: scheduled_loop.simps)
  next
    case False
    with 1(2) have "loop inceval sched (Suc n) (scheduled_superstep inceval (sched n) g) = Some r"
      by simp
    from 1(1) [OF this 1(3) 1(4) 1(5)]
    have "scheduled_loop inceval sched' (Suc n) (scheduled_superstep inceval (sched n) g) = Some r" .
    moreover have "scheduled_superstep inceval (sched n) g = scheduled_superstep inceval (sched' n) g"
      using 1(3) 1(4) 1(5) by (intro scheduled_superstep_eq) (simp_all add: delivers_all_def)
    ultimately show ?thesis
      using False by (subst scheduled_loop.simps) simp
  qed
qed

lemma scheduled_loop_eq:
  assumes "order_insensitive inceval" "delivers_all sched" "delivers_all sched'"
  shows "scheduled_loop inceval sched n g = scheduled_loop inceval sched' n g"
proof (cases "scheduled_loop inceval sched n g")
  case None
  show ?thesis
  proof (cases "scheduled_loop inceval sched' n g")
    case None
    with \<open>scheduled_loop inceval sched n g = None\<close> show ?thesis by simp
  next
    case (Some r)
    from scheduled_loop_transfer [OF Some assms(1) assms(3) assms(2)] None
    show ?thesis by simp
  qed
next
  case (Some r)
  from scheduled_loop_transfer [OF Some assms] Some show ?thesis by simp
qed

lemma scheduled_superstep_sender_order:
  "scheduled_superstep inceval (sender_order n) g = superstep inceval g"
  by (simp add: scheduled_superstep_def scheduled_exchange_def superstep_def exchange_def
      sender_order_def)

lemma scheduled_loop_sender_order_Some:
  assumes "scheduled_loop inceval sched n g = Some r"
    and "sched = sender_order"
  shows "superstep_loop inceval n g = Some r"
  using assms
proof (induction inceval sched n g r rule: scheduled_loop.raw_induct [rotated, consumes 1])
  case (1 loop inceval sched n g r)
  show ?case
  proof (cases "global_quiescence g")
    case True
    with 1(2) show ?thesis by (simp add: superstep_loop.simps)
  next
    case False
    with 1(2) have "loop inceval sched (Suc n) (scheduled_superstep inceval (sched n) g) = Some r"
      by simp
    from 1(1) [OF this 1(3)]
    have "superstep_loop inceval (Suc n) (superstep inceval g) = Some r"
      using 1(3) by (simp add: scheduled_superstep_sender_order)
    then show ?thesis
      using False by (subst superstep_loop.simps) simp
  qed
qed

lemma superstep_loop_scheduled_Some:
  assumes "superstep_loop inceval n g = Some r"
  shows "scheduled_loop inceval sender_order n g = Some r"
  using assms
proof (induction inceval n g r rule: superstep_loop.raw_induct [rotated, consumes 1])
  case (1 loop inceval n g r)
  show ?case
  proof (cases "global_quiescence g")
    case True
    with 1(2) show ?thesis by (simp add: scheduled_loop.simps)
  next
    case False
    with 1(2) have "loop inceval (Suc n) (superstep inceval g) = Some r" by simp
    from 1(1) [OF this]
    have "scheduled_loop inceval sender_order (Suc n) (superstep inceval g) = Some r" .
    then show ?thesis
      using False
      by (subst scheduled_loop.simps) (simp add: scheduled_superstep_sender_order)
  qed
qed

lemma scheduled_loop_sender_order:
  "scheduled_loop inceval sender_order n g = superstep_loop inceval n g"
proof (cases "superstep_loop inceval n g")
  case None
  show ?thesis
  proof (cases "scheduled_loop inceval sender_order n g")
    case None
    with \<open>superstep_loop inceval n g = None\<close> show ?thesis by simp
  next
    case (Some r)
    from scheduled_loop_sender_order_Some [OF Some refl] None show ?thesis by simp
  qed
next
  case (Some r)
  from superstep_loop_scheduled_Some [OF Some] Some show ?thesis by simp
qed

lemma scheduled_PIE_sender_order:
  "scheduled_PIE init peval inceval blank sender_order frags =
     run_PIE init peval inceval blank frags"
  by (simp add: scheduled_PIE_def run_PIE_def scheduled_loop_sender_order)

lemma delivers_all_sender_order: "delivers_all sender_order"
  by (simp add: delivers_all_def sender_order_def)

lemma delivers_all_reverse_order: "delivers_all reverse_order"
  by (simp add: delivers_all_def reverse_order_def)

lemma fold_min_mset:
  assumes "mset ms = mset ms'"
  shows "fold min ms (a::nat) = fold min ms' a"
proof -
  have "fold min ms = fold min ms'"
    using assms by (intro fold_multiset_equiv) (auto simp add: fun_eq_iff)
  then show ?thesis by simp
qed

lemma order_insensitive_label_IncEval: "order_insensitive label_IncEval"
  unfolding order_insensitive_def
proof (intro allI impI)
  fix f :: toy_fragment and c :: "(nat, nat) Context" and ms ms' :: "nat list"
  assume "mset ms = mset ms'"
  then have "fold min ms (vertex_data c) = fold min ms' (vertex_data c)"
    by (rule fold_min_mset)
  then show "label_IncEval f (c\<lparr>incoming := ms\<rparr>) = label_IncEval f (c\<lparr>incoming := ms'\<rparr>)"
    by (simp add: label_IncEval_def adopt_def Let_def)
qed

lemma toy_run:
  "run_PIE label_Init label_PEval label_IncEval blank_context toy_graph = Some (3, toy_result)"
proof -
  have "superstep_loop label_IncEval 0 toy_group =
      Some (0 + 3, (superstep label_IncEval ^^ 3) toy_group)"
    by (rule superstep_loop_reaches) (simp_all add: toy_iterate toy_quiescent toy_not_earlier)
  then show ?thesis
    by (simp add: run_PIE_def toy_group_def [symmetric] toy_iterate)
qed

text \<open>
  Claim C10, as amended. Take two runs of a full PIE cycle on the same fragments with the
  same Program, whose \<^verbatim>\<open>IncEval\<close> is insensitive to the order of the messages it
  receives. Whatever the order of delivery within each superstep of either run, the two
  runs agree: both reach quiescence or neither does, after the same number of supersteps
  and with the same final group, so with identical per-vertex Context values.
\<close>

theorem order_insensitive_determinism:
  assumes "order_insensitive inceval"
    and "delivers_all sched"
    and "delivers_all sched'"
  shows "scheduled_PIE init peval inceval blank sched frags =
       scheduled_PIE init peval inceval blank sched' frags \<and>
     vertex_values (scheduled_PIE init peval inceval blank sched frags) =
       vertex_values (scheduled_PIE init peval inceval blank sched' frags)"
  using scheduled_loop_eq [OF assms] by (simp add: scheduled_PIE_def)

theorem order_insensitive_determinism_witness:
  "scheduled_PIE label_Init label_PEval label_IncEval blank_context reverse_order toy_graph =
     scheduled_PIE label_Init label_PEval label_IncEval blank_context sender_order toy_graph \<and>
   vertex_values
     (scheduled_PIE label_Init label_PEval label_IncEval blank_context reverse_order toy_graph) =
     Some [1, 1, 1, 1]"
proof -
  note t = order_insensitive_determinism [OF order_insensitive_label_IncEval
      delivers_all_reverse_order delivers_all_sender_order,
      of label_Init label_PEval blank_context toy_graph]
  have "vertex_values (Some (3, toy_result)) = Some [1, 1, 1, 1]"
    by (simp add: vertex_values_def toy_result_def toy_graph_def)
  with t show ?thesis
    by (simp add: scheduled_PIE_sender_order toy_run)
qed

text \<open>
  The claim as stated, for any Program, fails for a Program that is sensitive to the order
  of arrival: under the two schedules the same fragments end with different labels, both
  runs reaching quiescence.
\<close>

theorem arrival_order_counterexample:
  "delivers_all sender_order \<and> delivers_all reverse_order \<and>
   vertex_values
     (scheduled_PIE label_Init announce_PEval first_IncEval blank_context sender_order
        fork_graph) = Some [3, 3, 1] \<and>
   vertex_values
     (scheduled_PIE label_Init announce_PEval first_IncEval blank_context reverse_order
        fork_graph) = Some [1, 1, 1]"
proof (intro conjI)
  show "delivers_all sender_order" by (rule delivers_all_sender_order)
  show "delivers_all reverse_order" by (rule delivers_all_reverse_order)
  show "vertex_values
     (scheduled_PIE label_Init announce_PEval first_IncEval blank_context sender_order
        fork_graph) = Some [3, 3, 1]"
    by code_simp
  show "vertex_values
     (scheduled_PIE label_Init announce_PEval first_IncEval blank_context reverse_order
        fork_graph) = Some [1, 1, 1]"
    by code_simp
qed

end
